theory Spec2Isabelle
  imports Main "HOL-Library.Sublist"
begin

unbundle bit_operations_syntax

section \<open>BtMeshGenerator: the data model and the merge / validation engine\<close>

text \<open>
  A shallow embedding of \<^verbatim>\<open>app/btmesh/script/generator/BtMeshGenerator.py\<close>.
  Python integers are \<^typ>\<open>int\<close>, Python lists are HOL lists, a raised exception is
  the left injection of a sum type, and text written to the standard output is returned
  next to the result.
\<close>

subsection \<open>Exceptions\<close>

text \<open>
  \<^item> \<open>ValueError\<close>: a shift by a negative count, or a numeric literal \<^verbatim>\<open>int(s, 0)\<close> rejects;
  \<^item> \<open>IndexError\<close>: \<^verbatim>\<open>macro[0]\<close> on an empty string;
  \<^item> \<open>SystemExit n\<close>: \<^verbatim>\<open>exit(n)\<close>.
\<close>

datatype error = ValueError | IndexError | SystemExit int

subsection \<open>Identifier derivation: \<^verbatim>\<open>to_c_macro\<close>\<close>


definition isdigit :: "char \<Rightarrow> bool" where
  "isdigit c = (c \<in> set ''0123456789'')"

definition islower :: "char \<Rightarrow> bool" where
  "islower c = (c \<in> set ''abcdefghijklmnopqrstuvwxyz'')"

definition isupper :: "char \<Rightarrow> bool" where
  "isupper c = (c \<in> set ''ABCDEFGHIJKLMNOPQRSTUVWXYZ'')"

definition isalpha :: "char \<Rightarrow> bool" where
  "isalpha c = (islower c \<or> isupper c)"

text \<open>A word character of the regular expression syntax: what \<^verbatim>\<open>\W\<close> does not match.\<close>

definition is_word_char :: "char \<Rightarrow> bool" where
  "is_word_char c = (isalpha c \<or> isdigit c \<or> c = CHR ''_'')"

definition upper_char :: "char \<Rightarrow> char" where
  "upper_char c =
     (case map_of (zip ''abcdefghijklmnopqrstuvwxyz'' ''ABCDEFGHIJKLMNOPQRSTUVWXYZ'') c of
        Some u \<Rightarrow> u
      | None \<Rightarrow> c)"

text \<open>\<^verbatim>\<open>re.sub("\W", "_", name)\<close>: each non-word character becomes one underscore.\<close>

definition re_sub_W :: "string \<Rightarrow> string" where
  "re_sub_W name = map (\<lambda>c. if is_word_char c then c else CHR ''_'') name"

definition upper :: "string \<Rightarrow> string" where
  "upper s = map upper_char s"

text \<open>
  \<^verbatim>\<open>
  def to_c_macro(name):
      macro = re.sub("\W", "_", name)
      macro = macro + ("_" if macro[0].isdigit() else "")
      return macro.upper()
  \<close>
  \<^verbatim>\<open>macro[0]\<close> raises \<open>IndexError\<close> when the substituted string is empty.
\<close>

definition to_c_macro :: "string \<Rightarrow> error + string" where
  "to_c_macro name =
     (let macro = re_sub_W name in
      case macro of
        [] \<Rightarrow> Inl IndexError
      | c # _ \<Rightarrow> Inr (upper (macro @ (if isdigit c then ''_'' else ''''))))"

subsection \<open>Models\<close>

text \<open>
  The three model classes share the attribute names \<^verbatim>\<open>mid\<close>, \<^verbatim>\<open>cid\<close> and
  \<^verbatim>\<open>name\<close>; the fields of \<open>SIGModel\<close> carry the prefix \<open>s_\<close> and those of
  \<open>VendorModel\<close> the prefix \<open>v_\<close>.
\<close>

record SIGModel =
  s_mid :: int
  s_name :: string

record VendorModel =
  v_mid :: int
  v_cid :: int
  v_name :: string

text \<open>
  Python's \<^verbatim>\<open>a << n\<close> on integers: \<open>ValueError\<close> ("negative shift count") when
  \<open>n < 0\<close>, otherwise \<open>a\<close> shifted left by \<open>n\<close> bits, with no overflow.
\<close>

definition py_lshift :: "int \<Rightarrow> int \<Rightarrow> error + int" where
  "py_lshift a n = (if n < 0 then Inl ValueError else Inr (push_bit (nat n) a))"

text \<open>
  \<^verbatim>\<open>
  @property
  def vmid(self):
      return self.mid << 16 + self.cid
  \<close>
  In Python \<^verbatim>\<open>+\<close> binds tighter than \<^verbatim>\<open><<\<close>: the expression is
  \<^verbatim>\<open>self.mid << (16 + self.cid)\<close>.
\<close>

definition vmid :: "VendorModel \<Rightarrow> error + int" where
  "vmid m = py_lshift (v_mid m) (16 + v_cid m)"

text \<open>\<^verbatim>\<open>macro_name\<close>: the macro-safe identifier of the model's name.\<close>

definition macro_name :: "VendorModel \<Rightarrow> error + string" where
  "macro_name m = to_c_macro (v_name m)"

subsection \<open>Sources\<close>

text \<open>
  \<^verbatim>\<open>Source.__eq__\<close> compares the pairs \<^verbatim>\<open>(filename, group)\<close>: equality of records.
  \<open>group\<close> is \<open>None\<close> when the fragment's element entry has no \<^verbatim>\<open>"group"\<close> key.
\<close>

record Source =
  filename :: string
  group :: "string option"

subsection \<open>Elements\<close>

text \<open>
  Every list of an \<open>Element\<close> is built by its constructor (two list comprehensions and
  \<^verbatim>\<open>sources.copy()\<close>), so no two Elements share a list and an Element is the value of
  its fields. The model objects and the Sources inside the lists are never mutated.
\<close>

record Element =
  name :: string
  location :: int
  sig_models :: "SIGModel list"
  vendor_models :: "VendorModel list"
  sources :: "Source list"

definition filenames :: "Element \<Rightarrow> string list" where
  "filenames self = map filename (sources self)"



text \<open>
  \<^verbatim>\<open>{m.vmid for m in ms}\<close>: the set comprehension reads \<^verbatim>\<open>vmid\<close> of every model in
  list order and raises what the first failing one raises.
\<close>

fun vmid_set :: "VendorModel list \<Rightarrow> error + int set" where
  "vmid_set [] = Inr {}"
| "vmid_set (m # ms) =
     (case vmid m of
        Inl e \<Rightarrow> Inl e
      | Inr x \<Rightarrow> (case vmid_set ms of Inl e \<Rightarrow> Inl e | Inr S \<Rightarrow> Inr (insert x S)))"

text \<open>
  \<^verbatim>\<open>
  def is_mergeable_with(self, other):
      if self.name != other.name:
          return False
      self_sig_models = {m.mid for m in self.sig_models}
      other_sig_models = {m.mid for m in other.sig_models}
      if not self_sig_models.isdisjoint(other_sig_models):
          return False
      self_vendor_models = {m.vmid for m in self.vendor_models}
      other_vendor_models = {m.vmid for m in other.vendor_models}
      if not self_vendor_models.isdisjoint(other_vendor_models):
          return False
      return True
  \<close>
\<close>

definition is_mergeable_with :: "Element \<Rightarrow> Element \<Rightarrow> error + bool" where
  "is_mergeable_with self other =
     (if name self \<noteq> name other then Inr False
      else
        let self_sig_models = set (map s_mid (sig_models self));
            other_sig_models = set (map s_mid (sig_models other))
        in
          if \<not> (self_sig_models \<inter> other_sig_models = {}) then Inr False
          else
            (case vmid_set (vendor_models self) of
               Inl e \<Rightarrow> Inl e
             | Inr self_vendor_models \<Rightarrow>
                 (case vmid_set (vendor_models other) of
                    Inl e \<Rightarrow> Inl e
                  | Inr other_vendor_models \<Rightarrow>
                      if \<not> (self_vendor_models \<inter> other_vendor_models = {}) then Inr False
                      else Inr True)))"

text \<open>
  \<^verbatim>\<open>
  def merge_with(self, other):
      self.sig_models.extend(other.sig_models)
      self.vendor_models.extend(other.vendor_models)
      self.sources.extend(other.sources)
  \<close>
  The result is the new value of \<^verbatim>\<open>self\<close>. (\<^verbatim>\<open>xs.extend(xs)\<close> doubles \<^verbatim>\<open>xs\<close>, so
  the equation also holds when \<^verbatim>\<open>other\<close> is \<^verbatim>\<open>self\<close>.)
\<close>

definition merge_with :: "Element \<Rightarrow> Element \<Rightarrow> Element" where
  "merge_with self other =
     self\<lparr>sig_models := sig_models self @ sig_models other,
          vendor_models := vendor_models self @ vendor_models other,
          sources := sources self @ sources other\<rparr>"

subsection \<open>The DCD\<close>

record DCD =
  cid :: int
  pid :: int
  vid :: int
  elements :: "Element list"
  unique_vendor_models :: "VendorModel list"


definition total_elements :: "DCD \<Rightarrow> nat" where
  "total_elements self = length (elements self)"

subsection \<open>The merge engine: \<^verbatim>\<open>add_chunk\<close>\<close>

text \<open>
  \<^verbatim>\<open>
  def add_chunk(self, chunk):
      for e in chunk:
          for element in self.elements:
              if element.is_mergeable_with(e):
                  element.merge_with(e)
                  break
          else:
              self.elements.append(e)
  \<close>
  The elements of a chunk are fresh objects (\<^verbatim>\<open>dcd_chunk\<close> constructs each one), so
  no element of the chunk is an element of \<^verbatim>\<open>self.elements\<close> or occurs twice in the
  chunk.

  \<open>merge_first\<close> is the inner \<^verbatim>\<open>for\<close>: \<open>Some\<close> of the updated list when the loop left
  through \<^verbatim>\<open>break\<close>, \<open>None\<close> when it ran to its end.
\<close>

fun merge_first :: "Element list \<Rightarrow> Element \<Rightarrow> error + Element list option" where
  "merge_first [] e = Inr None"
| "merge_first (element # rest) e =
     (case is_mergeable_with element e of
        Inl err \<Rightarrow> Inl err
      | Inr True \<Rightarrow> Inr (Some (merge_with element e # rest))
      | Inr False \<Rightarrow>
          (case merge_first rest e of
             Inl err \<Rightarrow> Inl err
           | Inr None \<Rightarrow> Inr None
           | Inr (Some rest') \<Rightarrow> Inr (Some (element # rest'))))"

text \<open>One round of the outer loop; the \<^verbatim>\<open>else\<close> of the inner \<^verbatim>\<open>for\<close> appends.\<close>

definition add_element :: "Element list \<Rightarrow> Element \<Rightarrow> error + Element list" where
  "add_element elems e =
     (case merge_first elems e of
        Inl err \<Rightarrow> Inl err
      | Inr (Some elems') \<Rightarrow> Inr elems'
      | Inr None \<Rightarrow> Inr (elems @ [e]))"

fun add_elements :: "Element list \<Rightarrow> Element list \<Rightarrow> error + Element list" where
  "add_elements elems [] = Inr elems"
| "add_elements elems (e # chunk) =
     (case add_element elems e of
        Inl err \<Rightarrow> Inl err
      | Inr elems' \<Rightarrow> add_elements elems' chunk)"

definition add_chunk :: "DCD \<Rightarrow> Element list \<Rightarrow> error + DCD" where
  "add_chunk self chunk =
     (case add_elements (elements self) chunk of
        Inl err \<Rightarrow> Inl err
      | Inr elems \<Rightarrow> Inr (self\<lparr>elements := elems\<rparr>))"

subsection \<open>The consistency validator: \<^verbatim>\<open>validate\<close>\<close>





subsection \<open>The vendor model aggregator: \<^verbatim>\<open>collect_v_models\<close>\<close>

text \<open>
  \<^verbatim>\<open>
  def collect_v_models(self):
      duplicated = False
      dcd_vendor_model = []
      for e in self.elements:
          for me in e.vendor_models:
              for m_dcd in dcd_vendor_model:
                  if me.name == m_dcd.name or me.mid == m_dcd.mid:
                      duplicated = True
              if duplicated == False:
                  dcd_vendor_model.append(me)
              duplicated = False
      return dcd_vendor_model
  \<close>
  \<open>scan_duplicated\<close> is the innermost loop, threading the flag; \<open>collect_models\<close> the loop
  over one element's vendor models and \<open>collect_elements\<close> the loop over the elements,
  both threading \<^verbatim>\<open>dcd_vendor_model\<close>.
\<close>

fun scan_duplicated :: "bool \<Rightarrow> VendorModel \<Rightarrow> VendorModel list \<Rightarrow> bool" where
  "scan_duplicated duplicated me [] = duplicated"
| "scan_duplicated duplicated me (m_dcd # rest) =
     scan_duplicated
       (if v_name me = v_name m_dcd \<or> v_mid me = v_mid m_dcd then True else duplicated)
       me rest"

fun collect_models :: "VendorModel list \<Rightarrow> VendorModel list \<Rightarrow> VendorModel list" where
  "collect_models dcd_vendor_model [] = dcd_vendor_model"
| "collect_models dcd_vendor_model (me # rest) =
     (let duplicated = scan_duplicated False me dcd_vendor_model in
      collect_models
        (if duplicated = False then dcd_vendor_model @ [me] else dcd_vendor_model) rest)"

fun collect_elements :: "VendorModel list \<Rightarrow> Element list \<Rightarrow> VendorModel list" where
  "collect_elements dcd_vendor_model [] = dcd_vendor_model"
| "collect_elements dcd_vendor_model (e # rest) =
     collect_elements (collect_models dcd_vendor_model (vendor_models e)) rest"

definition collect_v_models :: "DCD \<Rightarrow> VendorModel list" where
  "collect_v_models self = collect_elements [] (elements self)"

text \<open>
  The first statement of \<^verbatim>\<open>dcdgen\<close>, the only one that changes the DCD:
  \<^verbatim>\<open>dcd.unique_vendor_models = dcd.collect_v_models()\<close>.
\<close>

definition dcdgen_collect :: "DCD \<Rightarrow> DCD" where
  "dcdgen_collect dcd = dcd\<lparr>unique_vendor_models := collect_v_models dcd\<rparr>"

subsection \<open>Construction from decoded records\<close>












subsection \<open>The main loop over the fragment files\<close>


subsection \<open>Example data\<close>

text \<open>Elements and DCDs the properties below are evaluated on.\<close>

definition ex_elem :: "string \<Rightarrow> int list \<Rightarrow> (int \<times> int \<times> string) list \<Rightarrow> Source list \<Rightarrow> Element" where
  "ex_elem n mids vms srcs =
     \<lparr>name = n, location = 0,
      sig_models = map (\<lambda>i. \<lparr>s_mid = i, s_name = ''sig''\<rparr>) mids,
      vendor_models = map (\<lambda>(i, c, vn). \<lparr>v_mid = i, v_cid = c, v_name = vn\<rparr>) vms,
      sources = srcs\<rparr>"

definition ex_dcd :: "Element list \<Rightarrow> DCD" where
  "ex_dcd elems = \<lparr>cid = 1, pid = 2, vid = 3, elements = elems, unique_vendor_models = []\<rparr>"


subsection \<open>Notions the proofs use\<close>



section \<open>Properties\<close>

subsection \<open>Identifier derivation\<close>




text \<open>
  C10: \<open>to_c_macro\<close> returns a string exactly on the non-empty inputs; on the empty
  string the test of the first character of the substituted string raises \<open>IndexError\<close>.
\<close>

theorem to_c_macro_defined_iff_nonempty:
  "(\<exists>macro. to_c_macro s = Inr macro) = (s \<noteq> [])
   \<and> to_c_macro [] = Inl IndexError"
  by (cases s) (simp_all add: to_c_macro_def re_sub_W_def)

theorem to_c_macro_defined_witness:
  "(\<exists>macro. to_c_macro ''x'' = Inr macro) \<and> to_c_macro '''' = Inl IndexError"
  using to_c_macro_defined_iff_nonempty [of "''x''"] by simp

subsection \<open>The vendor model key\<close>

text \<open>
  C1: \<open>vmid\<close> of a vendor model with model id \<open>m\<close> and company id \<open>c\<close> is \<open>m\<close> shifted
  left by \<open>16 + c\<close> bits, that is \<open>m * 2 ^ (16 + c)\<close>: the shift count depends on the
  company id (and Python raises \<open>ValueError\<close> for the shift when the count is negative).
  It is not \<open>m\<close> shifted left by 16 and then combined with \<open>c\<close>, neither by bitwise or nor
  by addition: some vendor model tells the three apart.
\<close>

theorem vmid_shifts_by_16_plus_cid:
  "vmid m = (if 16 + v_cid m < 0 then Inl ValueError
             else Inr (v_mid m * 2 ^ nat (16 + v_cid m)))
   \<and> (\<exists>m'. vmid m' \<noteq> Inr (push_bit 16 (v_mid m') OR v_cid m')
          \<and> vmid m' \<noteq> Inr (push_bit 16 (v_mid m') + v_cid m'))"
proof
  show "vmid m = (if 16 + v_cid m < 0 then Inl ValueError
             else Inr (v_mid m * 2 ^ nat (16 + v_cid m)))"
    by (simp add: vmid_def py_lshift_def push_bit_eq_mult)
next
  let ?m = "\<lparr>v_mid = 1, v_cid = 1, v_name = ''vendor''\<rparr>"
  have "vmid ?m = Inr 131072"
    by (simp add: vmid_def py_lshift_def)
  moreover have "push_bit 16 (1::int) OR 1 = 65537" "push_bit 16 (1::int) + 1 = 65537"
    by simp_all
  ultimately have "vmid ?m \<noteq> Inr (push_bit 16 (v_mid ?m) OR v_cid ?m)
          \<and> vmid ?m \<noteq> Inr (push_bit 16 (v_mid ?m) + v_cid ?m)"
    by simp
  then show "\<exists>m'. vmid m' \<noteq> Inr (push_bit 16 (v_mid m') OR v_cid m')
          \<and> vmid m' \<noteq> Inr (push_bit 16 (v_mid m') + v_cid m')"
    by blast
qed

theorem vmid_witness:
  "vmid \<lparr>v_mid = 3, v_cid = 2, v_name = ''vendor''\<rparr> = Inr 786432
   \<and> vmid \<lparr>v_mid = 3, v_cid = - 17, v_name = ''vendor''\<rparr> = Inl ValueError"
  using vmid_shifts_by_16_plus_cid [of "\<lparr>v_mid = 3, v_cid = 2, v_name = ''vendor''\<rparr>"]
    vmid_shifts_by_16_plus_cid [of "\<lparr>v_mid = 3, v_cid = - 17, v_name = ''vendor''\<rparr>"]
  by simp

subsection \<open>Merging two elements\<close>

text \<open>
  C9: \<open>merge_with target other\<close> makes each of \<open>sig_models\<close>, \<open>vendor_models\<close> and
  \<open>sources\<close> of the target the target's list followed by the other's, nothing dropped
  and nothing checked, and leaves \<open>name\<close> and \<open>location\<close> of the target as they were.
\<close>

theorem merge_with_concatenates:
  "sig_models (merge_with target other) = sig_models target @ sig_models other
   \<and> vendor_models (merge_with target other) = vendor_models target @ vendor_models other
   \<and> sources (merge_with target other) = sources target @ sources other
   \<and> name (merge_with target other) = name target
   \<and> location (merge_with target other) = location target"
  by (simp add: merge_with_def)

subsection \<open>The mergeability predicate\<close>

lemma vmid_set_Inr_iff:
  "vmid_set ms = Inr S \<longleftrightarrow>
     (\<forall>m\<in>set ms. \<exists>x. vmid m = Inr x) \<and> S = {x. \<exists>m\<in>set ms. vmid m = Inr x}"
proof (induction ms arbitrary: S)
  case Nil
  show ?case by auto
next
  case (Cons m ms)
  show ?case
  proof (cases "vmid m")
    case (Inl e)
    then show ?thesis by auto
  next
    case (Inr x)
    show ?thesis
    proof (cases "vmid_set ms")
      case (Inl e)
      with Cons.IH Inr show ?thesis by (auto simp del: vmid_set.simps simp add: vmid_set.simps(2))
    next
      case (Inr T)
      with Cons.IH [of T] \<open>vmid m = Inr x\<close> show ?thesis by auto
    qed
  qed
qed

lemma vmid_set_defined:
  "(\<exists>S. vmid_set ms = Inr S) \<longleftrightarrow> (\<forall>m\<in>set ms. \<exists>x. vmid m = Inr x)"
  by (simp add: vmid_set_Inr_iff)

text \<open>
  C2: \<open>is_mergeable_with a b\<close> returns true if and only if the names of \<open>a\<close> and \<open>b\<close> are
  equal, the set of \<open>mid\<close> values of the SIG models of \<open>a\<close> is disjoint from that of \<open>b\<close>,
  and the set of \<open>vmid\<close> values of the vendor models of \<open>a\<close> is disjoint from that of
  \<open>b\<close> (every vendor model of both having a \<open>vmid\<close>). When every vendor model of both
  has a \<open>vmid\<close> the predicate returns a truth value.
\<close>

theorem is_mergeable_with_iff:
  "(is_mergeable_with a b = Inr True) =
     (name a = name b
      \<and> s_mid ` set (sig_models a) \<inter> s_mid ` set (sig_models b) = {}
      \<and> (\<forall>m\<in>set (vendor_models a) \<union> set (vendor_models b). \<exists>x. vmid m = Inr x)
      \<and> {x. \<exists>m\<in>set (vendor_models a). vmid m = Inr x}
          \<inter> {x. \<exists>m\<in>set (vendor_models b). vmid m = Inr x} = {})
   \<and> ((\<forall>m\<in>set (vendor_models a) \<union> set (vendor_models b). \<exists>x. vmid m = Inr x)
        \<longrightarrow> (\<exists>r. is_mergeable_with a b = Inr r))"
proof -
  let ?A = "{x. \<exists>m\<in>set (vendor_models a). vmid m = Inr x}"
  let ?B = "{x. \<exists>m\<in>set (vendor_models b). vmid m = Inr x}"
  let ?defd = "\<forall>m\<in>set (vendor_models a) \<union> set (vendor_models b). \<exists>x. vmid m = Inr x"
  show ?thesis
  proof (cases "?defd")
    case True
    then have a: "vmid_set (vendor_models a) = Inr ?A" and b: "vmid_set (vendor_models b) = Inr ?B"
      by (simp_all add: vmid_set_Inr_iff)
    from True a b show ?thesis
      by (auto simp add: is_mergeable_with_def Let_def)
  next
    case False
    then have "\<not> (\<exists>S. vmid_set (vendor_models a) = Inr S) \<or> \<not> (\<exists>T. vmid_set (vendor_models b) = Inr T)"
      by (auto simp add: vmid_set_defined)
    then have "is_mergeable_with a b \<noteq> Inr True"
      by (auto simp add: is_mergeable_with_def Let_def split: sum.splits)
    with False show ?thesis by blast
  qed
qed

text \<open>
  Two elements named \<^verbatim>\<open>main\<close> with different SIG models: mergeable when the vendor
  models are \<open>(mid 1, cid 1)\<close> and \<open>(mid 2, cid 1)\<close>; not mergeable when they are
  \<open>(mid 1, cid 1)\<close> and \<open>(mid 2, cid 0)\<close>, whose \<open>vmid\<close> is \<open>131072\<close> for both.
\<close>

theorem is_mergeable_with_witness:
  "is_mergeable_with
     \<lparr>name = ''main'', location = 0, sig_models = [\<lparr>s_mid = 4096, s_name = ''x''\<rparr>],
      vendor_models = [\<lparr>v_mid = 1, v_cid = 1, v_name = ''v''\<rparr>], sources = []\<rparr>
     \<lparr>name = ''main'', location = 0, sig_models = [\<lparr>s_mid = 4097, s_name = ''y''\<rparr>],
      vendor_models = [\<lparr>v_mid = 2, v_cid = 1, v_name = ''w''\<rparr>], sources = []\<rparr>
   = Inr True
   \<and> is_mergeable_with
     \<lparr>name = ''main'', location = 0, sig_models = [\<lparr>s_mid = 4096, s_name = ''x''\<rparr>],
      vendor_models = [\<lparr>v_mid = 1, v_cid = 1, v_name = ''v''\<rparr>], sources = []\<rparr>
     \<lparr>name = ''main'', location = 0, sig_models = [\<lparr>s_mid = 4097, s_name = ''y''\<rparr>],
      vendor_models = [\<lparr>v_mid = 2, v_cid = 0, v_name = ''w''\<rparr>], sources = []\<rparr>
   = Inr False"
  using is_mergeable_with_iff [of
     "\<lparr>name = ''main'', location = 0, sig_models = [\<lparr>s_mid = 4096, s_name = ''x''\<rparr>],
      vendor_models = [\<lparr>v_mid = 1, v_cid = 1, v_name = ''v''\<rparr>], sources = []\<rparr>"
     "\<lparr>name = ''main'', location = 0, sig_models = [\<lparr>s_mid = 4097, s_name = ''y''\<rparr>],
      vendor_models = [\<lparr>v_mid = 2, v_cid = 1, v_name = ''w''\<rparr>], sources = []\<rparr>"]
    is_mergeable_with_iff [of
     "\<lparr>name = ''main'', location = 0, sig_models = [\<lparr>s_mid = 4096, s_name = ''x''\<rparr>],
      vendor_models = [\<lparr>v_mid = 1, v_cid = 1, v_name = ''v''\<rparr>], sources = []\<rparr>"
     "\<lparr>name = ''main'', location = 0, sig_models = [\<lparr>s_mid = 4097, s_name = ''y''\<rparr>],
      vendor_models = [\<lparr>v_mid = 2, v_cid = 0, v_name = ''w''\<rparr>], sources = []\<rparr>"]
  by (auto simp add: vmid_def py_lshift_def)

subsection \<open>Folding a chunk\<close>

lemma merge_first_no_match:
  "(\<forall>j<length elems. is_mergeable_with (elems ! j) e = Inr False)
   \<Longrightarrow> merge_first elems e = Inr None"
proof (induction elems)
  case Nil
  show ?case by simp
next
  case (Cons x xs)
  from Cons.prems have "is_mergeable_with x e = Inr False" by auto
  moreover from Cons.prems have "\<forall>j<length xs. is_mergeable_with (xs ! j) e = Inr False"
    by auto
  ultimately show ?case using Cons.IH by simp
qed

lemma merge_first_match:
  "i < length elems \<Longrightarrow> is_mergeable_with (elems ! i) e = Inr True
   \<Longrightarrow> (\<forall>j<i. is_mergeable_with (elems ! j) e = Inr False)
   \<Longrightarrow> merge_first elems e = Inr (Some (elems[i := merge_with (elems ! i) e]))"
proof (induction elems arbitrary: i)
  case Nil
  then show ?case by simp
next
  case (Cons x xs)
  show ?case
  proof (cases i)
    case 0
    with Cons.prems show ?thesis by simp
  next
    case (Suc k)
    with Cons.prems have x: "is_mergeable_with x e = Inr False" by auto
    from Suc Cons.prems have "k < length xs" "is_mergeable_with (xs ! k) e = Inr True"
      "\<forall>j<k. is_mergeable_with (xs ! j) e = Inr False"
      by auto
    from Cons.IH [OF this] x Suc show ?thesis by simp
  qed
qed

lemma merge_first_error:
  "i < length elems \<Longrightarrow> is_mergeable_with (elems ! i) e = Inl err
   \<Longrightarrow> (\<forall>j<i. is_mergeable_with (elems ! j) e = Inr False)
   \<Longrightarrow> merge_first elems e = Inl err"
proof (induction elems arbitrary: i)
  case Nil
  then show ?case by simp
next
  case (Cons x xs)
  show ?case
  proof (cases i)
    case 0
    with Cons.prems show ?thesis by simp
  next
    case (Suc k)
    with Cons.prems have x: "is_mergeable_with x e = Inr False" by auto
    from Suc Cons.prems have "k < length xs" "is_mergeable_with (xs ! k) e = Inl err"
      "\<forall>j<k. is_mergeable_with (xs ! j) e = Inr False"
      by auto
    from Cons.IH [OF this] x Suc show ?thesis by simp
  qed
qed

lemma add_chunk_Cons:
  "add_chunk d (e # chunk) =
     (case add_chunk d [e] of Inl err \<Rightarrow> Inl err | Inr d' \<Rightarrow> add_chunk d' chunk)"
  by (simp add: add_chunk_def split: sum.splits)

text \<open>
  C3: \<open>add_chunk\<close> takes the elements of the chunk in chunk order, each against the
  list as the elements before it left it. An incoming element \<open>e\<close> is merged into the
  element at the first position \<open>i\<close> of the accumulated list whose \<open>is_mergeable_with\<close>
  holds of \<open>e\<close> (every position before \<open>i\<close> answering false), and the rest of the list is
  as it was; when every accumulated element answers false, \<open>e\<close> is put at the end of the
  list. (When the predicate raises before any position answers true, \<open>add_chunk\<close>
  raises.)
\<close>

theorem add_chunk_first_match:
  "add_chunk d [] = Inr d
   \<and> add_chunk d (e # chunk) =
       (case add_chunk d [e] of Inl err \<Rightarrow> Inl err | Inr d' \<Rightarrow> add_chunk d' chunk)
   \<and> (\<forall>i. i < length (elements d) \<and> is_mergeable_with (elements d ! i) e = Inr True
          \<and> (\<forall>j<i. is_mergeable_with (elements d ! j) e = Inr False)
        \<longrightarrow> add_chunk d [e] =
              Inr (d\<lparr>elements := (elements d)[i := merge_with (elements d ! i) e]\<rparr>))
   \<and> ((\<forall>j<length (elements d). is_mergeable_with (elements d ! j) e = Inr False)
        \<longrightarrow> add_chunk d [e] = Inr (d\<lparr>elements := elements d @ [e]\<rparr>))
   \<and> (\<forall>i err. i < length (elements d) \<and> is_mergeable_with (elements d ! i) e = Inl err
          \<and> (\<forall>j<i. is_mergeable_with (elements d ! j) e = Inr False)
        \<longrightarrow> add_chunk d [e] = Inl err)"
proof (intro conjI allI impI)
  show "add_chunk d [] = Inr d"
    by (simp add: add_chunk_def)
  show "add_chunk d (e # chunk) =
       (case add_chunk d [e] of Inl err \<Rightarrow> Inl err | Inr d' \<Rightarrow> add_chunk d' chunk)"
    by (rule add_chunk_Cons)
next
  fix i
  assume "i < length (elements d) \<and> is_mergeable_with (elements d ! i) e = Inr True
          \<and> (\<forall>j<i. is_mergeable_with (elements d ! j) e = Inr False)"
  then have "merge_first (elements d) e
    = Inr (Some ((elements d)[i := merge_with (elements d ! i) e]))"
    using merge_first_match [of i "elements d" e] by blast
  then show "add_chunk d [e] =
              Inr (d\<lparr>elements := (elements d)[i := merge_with (elements d ! i) e]\<rparr>)"
    by (simp add: add_chunk_def add_element_def)
next
  assume "\<forall>j<length (elements d). is_mergeable_with (elements d ! j) e = Inr False"
  then have "merge_first (elements d) e = Inr None"
    by (rule merge_first_no_match)
  then show "add_chunk d [e] = Inr (d\<lparr>elements := elements d @ [e]\<rparr>)"
    by (simp add: add_chunk_def add_element_def)
next
  fix i err
  assume "i < length (elements d) \<and> is_mergeable_with (elements d ! i) e = Inl err
          \<and> (\<forall>j<i. is_mergeable_with (elements d ! j) e = Inr False)"
  then have "merge_first (elements d) e = Inl err"
    using merge_first_error [of i "elements d" e err] by blast
  then show "add_chunk d [e] = Inl err"
    by (simp add: add_chunk_def add_element_def)
qed

lemmas ex_defs = ex_elem_def ex_dcd_def is_mergeable_with_def vmid_def py_lshift_def

text \<open>
  An incoming \<^verbatim>\<open>main\<close> with SIG model 3 goes into the first \<^verbatim>\<open>main\<close> of the list,
  not the second; an incoming \<^verbatim>\<open>main\<close> with SIG model 1 collides with the only
  \<^verbatim>\<open>main\<close> and is put at the end.
\<close>

theorem add_chunk_witness:
  "add_chunk (ex_dcd [ex_elem ''aux'' [1] [] [], ex_elem ''main'' [1] [] [], ex_elem ''main'' [2] [] []])
     [ex_elem ''main'' [3] [] []]
   = Inr (ex_dcd [ex_elem ''aux'' [1] [] [], ex_elem ''main'' [1, 3] [] [], ex_elem ''main'' [2] [] []])
   \<and> add_chunk (ex_dcd [ex_elem ''aux'' [1] [] [], ex_elem ''main'' [1] [] []])
     [ex_elem ''main'' [1] [] []]
   = Inr (ex_dcd [ex_elem ''aux'' [1] [] [], ex_elem ''main'' [1] [] [], ex_elem ''main'' [1] [] []])"
proof
  let ?d = "ex_dcd [ex_elem ''aux'' [1] [] [], ex_elem ''main'' [1] [] [], ex_elem ''main'' [2] [] []]"
  let ?e = "ex_elem ''main'' [3] [] []"
  have h: "1 < length (elements ?d) \<and> is_mergeable_with (elements ?d ! 1) ?e = Inr True
          \<and> (\<forall>j<1. is_mergeable_with (elements ?d ! j) ?e = Inr False)"
    by (simp add: ex_defs)
  from add_chunk_first_match [of ?d ?e "[]"] h
  have "add_chunk ?d [?e] = Inr (?d\<lparr>elements := (elements ?d)[1 := merge_with (elements ?d ! 1) ?e]\<rparr>)"
    by blast
  then show "add_chunk ?d [?e]
    = Inr (ex_dcd [ex_elem ''aux'' [1] [] [], ex_elem ''main'' [1, 3] [] [], ex_elem ''main'' [2] [] []])"
    by (simp add: ex_elem_def ex_dcd_def merge_with_def)
next
  let ?d = "ex_dcd [ex_elem ''aux'' [1] [] [], ex_elem ''main'' [1] [] []]"
  let ?e = "ex_elem ''main'' [1] [] []"
  have h: "\<forall>j<length (elements ?d). is_mergeable_with (elements ?d ! j) ?e = Inr False"
    by (simp add: ex_defs less_Suc_eq)
  from add_chunk_first_match [of ?d ?e "[]"] h
  have "add_chunk ?d [?e] = Inr (?d\<lparr>elements := elements ?d @ [?e]\<rparr>)"
    by blast
  then show "add_chunk ?d [?e]
    = Inr (ex_dcd [ex_elem ''aux'' [1] [] [], ex_elem ''main'' [1] [] [], ex_elem ''main'' [1] [] []])"
    by (simp add: ex_elem_def ex_dcd_def)
qed

subsection \<open>The model count and the order of the chunks\<close>








subsection \<open>The vendor model aggregator\<close>

lemma scan_duplicated_iff:
  "scan_duplicated duplicated me acc =
     (duplicated \<or> (\<exists>m\<in>set acc. v_name me = v_name m \<or> v_mid me = v_mid m))"
  by (induction acc arbitrary: duplicated) auto

lemma collect_models_Cons:
  "collect_models acc (me # rest) =
     collect_models
       (if \<exists>m\<in>set acc. v_name me = v_name m \<or> v_mid me = v_mid m then acc else acc @ [me])
       rest"
  by (simp add: scan_duplicated_iff Let_def)

lemma collect_models_append:
  "collect_models acc (xs @ ys) = collect_models (collect_models acc xs) ys"
  by (induction xs arbitrary: acc) (simp_all add: Let_def)

lemma collect_elements_concat:
  "collect_elements acc elems = collect_models acc (concat (map vendor_models elems))"
  by (induction elems arbitrary: acc) (simp_all add: collect_models_append)

lemma collect_models_distinct:
  "distinct (map v_name acc) \<Longrightarrow> distinct (map v_mid acc)
   \<Longrightarrow> distinct (map v_name (collect_models acc xs)) \<and> distinct (map v_mid (collect_models acc xs))"
proof (induction xs arbitrary: acc)
  case Nil
  then show ?case by simp
next
  case (Cons me rest)
  let ?acc' = "if \<exists>m\<in>set acc. v_name me = v_name m \<or> v_mid me = v_mid m then acc else acc @ [me]"
  have "distinct (map v_name ?acc')" "distinct (map v_mid ?acc')"
    using Cons.prems by auto
  from Cons.IH [OF this] show ?case
    by (simp only: collect_models_Cons)
qed

lemma collect_models_extends:
  "\<exists>zs. collect_models acc xs = acc @ zs \<and> subseq zs xs"
proof (induction xs arbitrary: acc)
  case Nil
  show ?case by simp
next
  case (Cons me rest)
  let ?acc' = "if \<exists>m\<in>set acc. v_name me = v_name m \<or> v_mid me = v_mid m then acc else acc @ [me]"
  from Cons.IH [of ?acc'] obtain zs where
    zs: "collect_models ?acc' rest = ?acc' @ zs" "subseq zs rest" by blast
  show ?case
  proof (cases "\<exists>m\<in>set acc. v_name me = v_name m \<or> v_mid me = v_mid m")
    case True
    with zs have "collect_models acc (me # rest) = acc @ zs"
      by (simp only: collect_models_Cons if_True)
    moreover from zs(2) have "subseq zs (me # rest)"
      by (rule list_emb_Cons)
    ultimately show ?thesis by blast
  next
    case False
    with zs have "collect_models acc (me # rest) = acc @ (me # zs)"
      by (simp add: collect_models_Cons del: collect_models.simps)
    moreover from zs(2) have "subseq (me # zs) (me # rest)"
      by simp
    ultimately show ?thesis by blast
  qed
qed

lemma collect_models_covers:
  "\<forall>me\<in>set acc \<union> set xs. \<exists>m\<in>set (collect_models acc xs). v_name me = v_name m \<or> v_mid me = v_mid m"
proof (induction xs arbitrary: acc)
  case Nil
  show ?case by auto
next
  case (Cons me rest)
  let ?acc' = "if \<exists>m\<in>set acc. v_name me = v_name m \<or> v_mid me = v_mid m then acc else acc @ [me]"
  note IH = Cons.IH [of ?acc']
  have sub: "set acc \<subseteq> set ?acc'" by auto
  have me: "\<exists>m\<in>set ?acc'. v_name me = v_name m \<or> v_mid me = v_mid m" by auto
  from collect_models_extends [of ?acc' rest] obtain zs where
    "collect_models ?acc' rest = ?acc' @ zs" by blast
  then have keep: "set ?acc' \<subseteq> set (collect_models ?acc' rest)"
    by (simp only: set_append Un_upper1)
  show ?case
  proof
    fix x assume "x \<in> set acc \<union> set (me # rest)"
    then consider "x = me" | "x \<in> set ?acc' \<union> set rest" using sub by auto
    then show "\<exists>m\<in>set (collect_models acc (me # rest)). v_name x = v_name m \<or> v_mid x = v_mid m"
    proof cases
      case 1
      with me keep show ?thesis
        unfolding collect_models_Cons by blast
    next
      case 2
      with IH show ?thesis
        unfolding collect_models_Cons by blast
    qed
  qed
qed

text \<open>
  C5, as the specification states it, compares the candidate's \<open>vmid\<close>; the source
  compares its \<open>mid\<close>. Two vendor models with different names, the same \<open>mid\<close> and
  different \<open>cid\<close> have different \<open>vmid\<close>, and the second one is dropped; two with
  different names, different \<open>mid\<close> and the same \<open>vmid\<close> are both kept.
\<close>

theorem collect_v_models_name_or_mid_counterexample:
  "collect_v_models (ex_dcd [ex_elem ''e1'' [] [(1, 0, ''A'')] [], ex_elem ''e2'' [] [(1, 1, ''B'')] []])
     = [\<lparr>v_mid = 1, v_cid = 0, v_name = ''A''\<rparr>]
   \<and> vmid \<lparr>v_mid = 1, v_cid = 0, v_name = ''A''\<rparr> = Inr 65536
   \<and> vmid \<lparr>v_mid = 1, v_cid = 1, v_name = ''B''\<rparr> = Inr 131072
   \<and> collect_v_models (ex_dcd [ex_elem ''e1'' [] [(2, 0, ''A'')] [], ex_elem ''e2'' [] [(1, 1, ''B'')] []])
     = [\<lparr>v_mid = 2, v_cid = 0, v_name = ''A''\<rparr>, \<lparr>v_mid = 1, v_cid = 1, v_name = ''B''\<rparr>]
   \<and> vmid \<lparr>v_mid = 2, v_cid = 0, v_name = ''A''\<rparr> = Inr 131072"
  by (simp add: collect_v_models_def ex_elem_def ex_dcd_def vmid_def py_lshift_def)

text \<open>
  C5, amended: the aggregator goes through the elements in order and through the vendor
  models of each element in order, that is through the concatenation of the elements'
  vendor model lists; it appends a candidate to the accumulator if and only if no entry
  already accumulated has the candidate's name or the candidate's \<open>mid\<close>. So the result
  is a subsequence of the candidates, in their order, with no name and no \<open>mid\<close> twice,
  and every candidate has its name or its \<open>mid\<close> on a kept entry. The elements and
  their vendor model lists are unchanged.
\<close>

theorem collect_v_models_first_occurrence_wins:
  "collect_v_models d = collect_models [] (concat (map vendor_models (elements d)))
   \<and> collect_models acc [] = acc
   \<and> collect_models acc (me # rest) =
       collect_models
         (if \<exists>m\<in>set acc. v_name me = v_name m \<or> v_mid me = v_mid m then acc else acc @ [me])
         rest
   \<and> subseq (collect_v_models d) (concat (map vendor_models (elements d)))
   \<and> distinct (map v_name (collect_v_models d))
   \<and> distinct (map v_mid (collect_v_models d))
   \<and> (\<forall>me\<in>set (concat (map vendor_models (elements d))).
         \<exists>m\<in>set (collect_v_models d). v_name me = v_name m \<or> v_mid me = v_mid m)
   \<and> elements (dcdgen_collect d) = elements d
   \<and> unique_vendor_models (dcdgen_collect d) = collect_v_models d"
proof -
  let ?cs = "concat (map vendor_models (elements d))"
  have eq: "collect_v_models d = collect_models [] ?cs"
    by (simp add: collect_v_models_def collect_elements_concat)
  from collect_models_extends [of "[]" ?cs] have sub: "subseq (collect_v_models d) ?cs"
    by (auto simp add: eq)
  from collect_models_distinct [of "[]" ?cs]
  have dist: "distinct (map v_name (collect_v_models d))" "distinct (map v_mid (collect_v_models d))"
    by (simp_all add: eq)
  from collect_models_covers [of "[]" ?cs]
  have cov: "\<forall>me\<in>set ?cs. \<exists>m\<in>set (collect_v_models d). v_name me = v_name m \<or> v_mid me = v_mid m"
    by (simp add: eq)
  have frame: "elements (dcdgen_collect d) = elements d"
    "unique_vendor_models (dcdgen_collect d) = collect_v_models d"
    by (simp_all add: dcdgen_collect_def)
  from eq sub dist cov frame collect_models_Cons [of acc me rest] show ?thesis
    by (simp del: collect_models.simps add: collect_models.simps(1))
qed

text \<open>
  \<open>(3, A)\<close> repeats the name of \<open>(1, A)\<close> and \<open>(2, C)\<close> repeats the \<open>mid\<close> of \<open>(2, B)\<close>,
  whatever its \<open>cid\<close>: both are dropped.
\<close>

theorem collect_v_models_witness:
  "collect_v_models
     (ex_dcd [ex_elem ''e1'' [] [(1, 0, ''A''), (2, 0, ''B'')] [],
              ex_elem ''e2'' [] [(3, 0, ''A''), (2, 5, ''C''), (4, 0, ''D'')] []])
   = [\<lparr>v_mid = 1, v_cid = 0, v_name = ''A''\<rparr>, \<lparr>v_mid = 2, v_cid = 0, v_name = ''B''\<rparr>,
      \<lparr>v_mid = 4, v_cid = 0, v_name = ''D''\<rparr>]"
proof -
  let ?d = "ex_dcd [ex_elem ''e1'' [] [(1, 0, ''A''), (2, 0, ''B'')] [],
              ex_elem ''e2'' [] [(3, 0, ''A''), (2, 5, ''C''), (4, 0, ''D'')] []]"
  note flat = collect_v_models_first_occurrence_wins [of ?d, THEN conjunct1]
  note step = collect_v_models_first_occurrence_wins
    [of ?d, THEN conjunct2, THEN conjunct2, THEN conjunct1]
  show ?thesis
    by (subst flat) (simp add: ex_elem_def ex_dcd_def step del: collect_models.simps(2))
qed

subsection \<open>The consistency validator\<close>










subsection \<open>Constructing an element with duplicated vendor models\<close>











end
